theory Spec2Isabelle
  imports Main "HOL-Library.Word"
begin

section \<open>Strings of the platform\<close>

text \<open>
  A JavaScript string is a sequence of 16-bit code units, and \<open>length\<close> counts code units.
  \<open>ascii\<close> writes a string literal of the source whose characters are all below U+0080.
\<close>

type_synonym code_unit = "16 word"
type_synonym js_string = "code_unit list"
type_synonym byte = "8 word"

definition ascii :: "string \<Rightarrow> js_string" where
  "ascii s = map of_char s"

text \<open>
  \<open>String.prototype.trim\<close> removes WhiteSpace and LineTerminator code units (ECMA-262:
  TAB, VT, FF, ZWNBSP, the space separators of Unicode, LF, CR, LS, PS) from both ends.
\<close>

definition isWhiteSpace :: "code_unit \<Rightarrow> bool" where
  "isWhiteSpace c \<longleftrightarrow>
     c = 0x0009 \<or> c = 0x000A \<or> c = 0x000B \<or> c = 0x000C \<or> c = 0x000D \<or> c = 0x0020 \<or>
     c = 0x00A0 \<or> c = 0x1680 \<or> (0x2000 \<le> c \<and> c \<le> 0x200A) \<or> c = 0x2028 \<or> c = 0x2029 \<or>
     c = 0x202F \<or> c = 0x205F \<or> c = 0x3000 \<or> c = 0xFEFF"

definition trim :: "js_string \<Rightarrow> js_string" where
  "trim s = rev (dropWhile isWhiteSpace (rev (dropWhile isWhiteSpace s)))"

text \<open>
  \<open>String.prototype.indexOf(searchString, position)\<close>: the position is clamped to
  \<open>[0, length]\<close>; the result is the least index from there on at which \<open>searchString\<close>
  occurs, and \<open>-1\<close> when there is none. An empty \<open>searchString\<close> occurs at the clamped
  position itself.
\<close>

definition indexOf :: "js_string \<Rightarrow> js_string \<Rightarrow> int \<Rightarrow> int" where
  "indexOf s searchString position =
     (let len = length s;
          start = nat (min (max position 0) (int len));
          searchLen = length searchString
      in case List.find (\<lambda>i. take searchLen (drop i s) = searchString) [start ..< Suc len] of
           Some i \<Rightarrow> int i
         | None \<Rightarrow> - 1)"

text \<open>
  \<open>String.prototype.toLowerCase\<close> is the platform's routine; the search effect takes it
  as the parameter \<open>lower\<close>. On text of the Basic Latin block it maps \<open>A\<close>..\<open>Z\<close> to
  \<open>a\<close>..\<open>z\<close> and keeps every other code unit; \<open>toLowerCaseBasicLatin\<close> is that
  function, for evaluating the effect on such text.
\<close>

definition lowerUnit :: "code_unit \<Rightarrow> code_unit" where
  "lowerUnit c = (if 0x41 \<le> c \<and> c \<le> 0x5A then c + 0x20 else c)"

definition toLowerCaseBasicLatin :: "js_string \<Rightarrow> js_string" where
  "toLowerCaseBasicLatin s = map lowerUnit s"



section \<open>Data\<close>

text \<open>
  A parsed JSON value. The number type is a parameter: nothing below computes with numbers.
  An object keeps its entries in the order of \<open>Object.keys\<close>.
\<close>

datatype 'n json =
    JNull
  | JBool bool
  | JNumber 'n
  | JString js_string
  | JArray "'n json list"
  | JObject "(js_string \<times> 'n json) list"

text \<open>An entry of \<open>searchMatches\<close>: \<open>{start, end}\<close>.\<close>

record matchSpan =
  mstart :: int
  mend :: int

text \<open>
  The state of the \<open>App\<close> component (its \<open>useState\<close> cells), and the selection range of the
  editor's textarea, which \<open>scrollToMatch\<close> sets. \<open>null\<close> in \<open>parsedJson\<close> is \<open>JNull\<close>;
  \<open>null\<close> in \<open>error\<close> and \<open>gzipError\<close> is \<open>None\<close>.
\<close>

record 'n app_state =
  jsonText :: js_string
  parsedJson :: "'n json"
  error :: "js_string option"
  gzipResult :: js_string
  gzipInput :: js_string
  copyFeedback :: bool
  gzipError :: "js_string option"
  isSearchOpen :: bool
  searchText :: js_string
  searchMatches :: "matchSpan list"
  currentMatchIndex :: int
  selection :: "(int \<times> int) option"

definition initialState :: "'n app_state" where
  \<open>initialState =
     \<lparr> jsonText = ascii (''{\<newline>  "welcome": "JSON Editor",\<newline>  "features": [\<newline>'' @
                          ''    "Tree View",\<newline>    "Validation",\<newline>    "Gzip Compression"\<newline>'' @
                          ''  ],\<newline>  "active": true,\<newline>  "count": 42,\<newline>  "metadata": null\<newline>}''),
       parsedJson = JNull,
       error = None,
       gzipResult = [],
       gzipInput = [],
       copyFeedback = False,
       gzipError = None,
       isSearchOpen = False,
       searchText = [],
       searchMatches = [],
       currentMatchIndex = 0,
       selection = None \<rparr>\<close>

section \<open>Validation effect\<close>

text \<open>
  \<open>JSON.parse\<close> is the parameter \<open>jsonParse\<close>: \<open>Inr\<close> the parsed value, \<open>Inl\<close> the message
  of the exception it throws.
\<close>

definition validationEffect ::
  "(js_string \<Rightarrow> js_string + 'n json) \<Rightarrow> 'n app_state \<Rightarrow> 'n app_state" where
  "validationEffect jsonParse s =
     (if trim (jsonText s) = []
      then s\<lparr>parsedJson := JNull, error := None\<rparr>
      else case jsonParse (jsonText s) of
             Inr parsed \<Rightarrow> s\<lparr>parsedJson := parsed, error := None\<rparr>
           | Inl message \<Rightarrow> s\<lparr>parsedJson := JNull, error := Some message\<rparr>)"

section \<open>Search logic effect\<close>

text \<open>
  The \<open>while\<close> loop of the effect. With an empty \<open>lowerQuery\<close> the loop of the source never
  ends (\<open>indexOf\<close> keeps answering the length of the text), so the loop is a partial
  function and \<open>None\<close> stands for not returning.
\<close>

partial_function (option) scanMatches ::
  "js_string \<Rightarrow> js_string \<Rightarrow> int \<Rightarrow> matchSpan list \<Rightarrow> matchSpan list option" where
  "scanMatches lowerText lowerQuery startIndex matches =
     (let index = indexOf lowerText lowerQuery startIndex in
      if index > - 1
      then scanMatches lowerText lowerQuery (index + 1)
             (matches @ [\<lparr>mstart = index, mend = index + int (length lowerQuery)\<rparr>])
      else Some matches)"

declare scanMatches.simps [code]

definition searchLogicEffect ::
  "(js_string \<Rightarrow> js_string) \<Rightarrow> 'n app_state \<Rightarrow> 'n app_state option" where
  "searchLogicEffect lower s =
     (if searchText s = [] \<or> \<not> isSearchOpen s
      then Some (s\<lparr>searchMatches := [], currentMatchIndex := 0\<rparr>)
      else case scanMatches (lower (jsonText s)) (lower (searchText s)) 0 [] of
             None \<Rightarrow> None
           | Some matches \<Rightarrow> Some (s\<lparr>searchMatches := matches, currentMatchIndex := 0\<rparr>))"







section \<open>Match navigation\<close>

datatype direction = Next | Prev

text \<open>
  \<open>scrollToMatch\<close> moves the selection of the textarea (which is mounted whenever the
  component is) to the match at \<open>index\<close>, when there is one.
\<close>

definition scrollToMatch :: "int \<Rightarrow> 'n app_state \<Rightarrow> 'n app_state" where
  "scrollToMatch index s =
     (if length (searchMatches s) > 0 \<and> index \<ge> 0 \<and> index < int (length (searchMatches s))
      then let match = searchMatches s ! nat index
           in s\<lparr>selection := Some (mstart match, mend match)\<rparr>
      else s)"

definition handleSearchNav :: "direction \<Rightarrow> 'n app_state \<Rightarrow> 'n app_state" where
  "handleSearchNav direction s =
     (if length (searchMatches s) = 0 then s
      else let newIndex = (if direction = Next then currentMatchIndex s + 1
                           else currentMatchIndex s - 1);
               newIndex = (if newIndex \<ge> int (length (searchMatches s)) then 0 else newIndex);
               newIndex = (if newIndex < 0 then int (length (searchMatches s)) - 1 else newIndex)
           in scrollToMatch newIndex (s\<lparr>currentMatchIndex := newIndex\<rparr>))"

section \<open>Gzip decoding\<close>

text \<open>
  The platform services the handler calls. Each one that can throw returns \<open>Inl\<close> the
  message of what it throws: \<open>atob\<close> (Base64 to a binary string), \<open>window.pako.ungzip\<close>
  (\<open>None\<close> when the library is not loaded), \<open>TextDecoder.decode\<close>, \<open>JSON.parse\<close>;
  \<open>stringifyIndented v\<close> is \<open>JSON.stringify(v, null, 2)\<close>. The handler builds its
  \<open>TextDecoder\<close> with the default options, under which a browser replaces invalid bytes
  by U+FFFD rather than throwing; the model allows the service to throw all the same, so
  that the handler's \<open>catch\<close> is covered for every decoder.
\<close>

record 'n platform =
  atob :: "js_string \<Rightarrow> js_string + js_string"
  pako :: "(byte list \<Rightarrow> js_string + byte list) option"
  textDecode :: "byte list \<Rightarrow> js_string + js_string"
  parse :: "js_string \<Rightarrow> js_string + 'n json"
  stringifyIndented :: "'n json \<Rightarrow> js_string"

text \<open>The helper of the source: each code unit of the binary string is stored into a byte.\<close>

definition base64ToUint8 ::
  "(js_string \<Rightarrow> js_string + js_string) \<Rightarrow> js_string \<Rightarrow> js_string + byte list" where
  "base64ToUint8 atobFn base64 =
     (case atobFn base64 of
        Inl e \<Rightarrow> Inl e
      | Inr binaryString \<Rightarrow> Inr (map ucast binaryString))"

text \<open>The outer \<open>try\<close> block up to \<open>resultString\<close>; \<open>Inl\<close> is what the \<open>catch\<close> receives.\<close>

definition decodeToText :: "'n platform \<Rightarrow> js_string \<Rightarrow> js_string + js_string" where
  "decodeToText p input =
     (case pako p of
        None \<Rightarrow> Inl (ascii ''Pako library not loaded'')
      | Some ungzip \<Rightarrow>
          (case base64ToUint8 (atob p) input of
             Inl e \<Rightarrow> Inl e
           | Inr compressed \<Rightarrow>
               (case ungzip compressed of
                  Inl e \<Rightarrow> Inl e
                | Inr decompressed \<Rightarrow> textDecode p decompressed)))"

definition handleDecodeGzip :: "'n platform \<Rightarrow> 'n app_state \<Rightarrow> 'n app_state" where
  "handleDecodeGzip p s0 =
     (let s = s0\<lparr>gzipError := None\<rparr> in
      if trim (gzipInput s) = [] then s
      else case decodeToText p (gzipInput s) of
             Inl message \<Rightarrow>
               s\<lparr>gzipError := Some (ascii ''Decompression failed: '' @ message)\<rparr>
           | Inr resultString \<Rightarrow>
               (case parse p resultString of
                  Inr v \<Rightarrow> s\<lparr>jsonText := stringifyIndented p v\<rparr>
                | Inl _ \<Rightarrow> s\<lparr>jsonText := resultString\<rparr>))"

section \<open>Tree view: primitives\<close>

text \<open>
  \<open>renderValue\<close> of \<open>JsonNode\<close>: \<open>None\<close> for a container, which the component has
  already returned for. A number is shown by the platform's conversion \<open>numberText\<close>.
\<close>

fun renderValue :: "('n \<Rightarrow> js_string) \<Rightarrow> 'n json \<Rightarrow> js_string option" where
  "renderValue numberText (JString v) = Some ([0x22] @ v @ [0x22])"
| "renderValue numberText (JNumber v) = Some (numberText v)"
| "renderValue numberText (JBool v) = Some (if v then ascii ''true'' else ascii ''false'')"
| "renderValue numberText JNull = Some (ascii ''null'')"
| "renderValue numberText (JArray _) = None"
| "renderValue numberText (JObject _) = None"

text \<open>
  What \<open>JSON.parse\<close> does with a text that is one string literal (ECMA-404): the quotation
  marks go, an escape sequence becomes the code unit it stands for, every other code unit
  stays; a bare quotation mark or control character, or a malformed escape, is an error.
\<close>

definition hexValue :: "code_unit \<Rightarrow> nat option" where
  "hexValue c =
     (if 0x30 \<le> c \<and> c \<le> 0x39 then Some (unat c - 0x30)
      else if 0x41 \<le> c \<and> c \<le> 0x46 then Some (unat c - 0x37)
      else if 0x61 \<le> c \<and> c \<le> 0x66 then Some (unat c - 0x57)
      else None)"

fun unescape :: "js_string \<Rightarrow> js_string option" where
  "unescape [] = Some []"
| "unescape (c # cs) =
     (if c = 0x5C then
        (case cs of
           [] \<Rightarrow> None
         | e # rest \<Rightarrow>
             if e = 0x22 \<or> e = 0x5C \<or> e = 0x2F then map_option ((#) e) (unescape rest)
             else if e = 0x62 then map_option ((#) 0x08) (unescape rest)
             else if e = 0x66 then map_option ((#) 0x0C) (unescape rest)
             else if e = 0x6E then map_option ((#) 0x0A) (unescape rest)
             else if e = 0x72 then map_option ((#) 0x0D) (unescape rest)
             else if e = 0x74 then map_option ((#) 0x09) (unescape rest)
             else if e = 0x75 then
               (case rest of
                  h1 # h2 # h3 # h4 # rest' \<Rightarrow>
                    (case (hexValue h1, hexValue h2, hexValue h3, hexValue h4) of
                       (Some a, Some b, Some c', Some d) \<Rightarrow>
                         map_option ((#) (of_nat (((a * 16 + b) * 16 + c') * 16 + d)))
                           (unescape rest')
                     | _ \<Rightarrow> None)
                | _ \<Rightarrow> None)
             else None)
      else if c = 0x22 \<or> c < 0x20 then None
      else map_option ((#) c) (unescape cs))"

definition parseStringLiteral :: "js_string \<Rightarrow> js_string option" where
  "parseStringLiteral text =
     (case text of
        [] \<Rightarrow> None
      | q # rest \<Rightarrow>
          if q = 0x22 \<and> rest \<noteq> [] \<and> last rest = 0x22 then unescape (butlast rest) else None)"

section \<open>Example inputs\<close>

text \<open>
  States and platforms on which the handlers are evaluated below. The search examples have
  the search box open; \<open>scenarioState\<close> is the scenario of the specification: the text
  \<open>{"a":1,"b":[1,2]}\<close> and the query \<open>1\<close>; \<open>scenarioFound\<close> is that state with its two
  matches stored, and \<open>staleState\<close> has an index left over from a longer match list.
\<close>

definition scenarioState :: "int app_state" where
  \<open>scenarioState =
     initialState\<lparr>jsonText := ascii ''{"a":1,"b":[1,2]}'', searchText := ascii ''1'',
                  isSearchOpen := True\<rparr>\<close>

definition scenarioMatches :: "matchSpan list" where
  "scenarioMatches = [\<lparr>mstart = 5, mend = 6\<rparr>, \<lparr>mstart = 12, mend = 13\<rparr>]"

definition scenarioFound :: "int app_state" where
  "scenarioFound = scenarioState\<lparr>searchMatches := scenarioMatches\<rparr>"

definition staleState :: "int app_state" where
  "staleState = scenarioFound\<lparr>currentMatchIndex := 7\<rparr>"





definition blankState :: "int app_state" where
  "blankState = initialState\<lparr>jsonText := ascii '' \<newline>  ''\<rparr>"

text \<open>
  The examples take \<open>int\<close> for the numbers; \<open>integerText\<close> is the platform's conversion of
  an integer to its decimal text.
\<close>

fun digitsText :: "nat \<Rightarrow> js_string" where
  "digitsText n =
     (if n < 10 then [of_nat (0x30 + n)]
      else digitsText (n div 10) @ [of_nat (0x30 + n mod 10)])"

declare digitsText.simps [simp del]

definition integerText :: "int \<Rightarrow> js_string" where
  "integerText n = (if n < 0 then 0x2D # digitsText (nat (- n)) else digitsText (nat n))"

definition rejectingParse :: "js_string \<Rightarrow> js_string + int json" where
  "rejectingParse text = Inl (ascii ''Unexpected end of JSON input'')"

text \<open>
  \<open>malformedPlatform\<close>: \<open>atob\<close> rejects its input. \<open>plainTextPlatform\<close>: every service
  succeeds (bytes pass through unchanged) and the text is not JSON.
\<close>

definition malformedPlatform :: "int platform" where
  "malformedPlatform =
     \<lparr> atob = (\<lambda>base64. Inl (ascii ''The string to be decoded is not correctly encoded.'')),
       pako = Some (\<lambda>bytes. Inr bytes),
       textDecode = (\<lambda>bytes. Inr (map ucast bytes)),
       parse = rejectingParse,
       stringifyIndented = (\<lambda>v. []) \<rparr>"

definition plainTextPlatform :: "int platform" where
  "plainTextPlatform =
     \<lparr> atob = (\<lambda>base64. Inr (ascii ''not json'')),
       pako = Some (\<lambda>bytes. Inr bytes),
       textDecode = (\<lambda>bytes. Inr (map ucast bytes)),
       parse = rejectingParse,
       stringifyIndented = (\<lambda>v. []) \<rparr>"

definition decodeState :: "int app_state" where
  "decodeState = initialState\<lparr>gzipInput := ascii ''H4sI'', gzipError := Some (ascii ''old'')\<rparr>"

text \<open>
  \<open>malformedState\<close>: the decode input \<open>%%%\<close>, which is not Base64 and which \<open>atob\<close>
  rejects, as in \<open>malformedPlatform\<close>.
\<close>

definition malformedState :: "int app_state" where
  "malformedState = initialState\<lparr>gzipInput := ascii ''%%%''\<rparr>"

text \<open>
  \<open>invalidTextState\<close>: the decode input is the Base64 form of \<open>invalidTextGzip\<close>, a gzip
  stream of 21 bytes whose content is the single byte FF, which is not valid UTF-8.
  \<open>replacingPlatform\<close> gives the answers of the services on that input: \<open>atob\<close> the
  stream, \<open>ungzip\<close> the byte FF, the decoder (default options) U+FFFD, and \<open>JSON.parse\<close>
  a syntax error. \<open>decodeReplacing\<close> is the decoder on bytes that form no multi-byte
  character: an ASCII byte gives its code unit, any other byte U+FFFD.
\<close>

definition invalidTextState :: "int app_state" where
  "invalidTextState = initialState\<lparr>gzipInput := ascii ''H4sIAAAAAAACA/sPAAAAAP8BAAAA''\<rparr>"

definition invalidTextGzip :: js_string where
  "invalidTextGzip =
     [0x1F, 0x8B, 0x08, 0x00, 0x00, 0x00, 0x00, 0x00, 0x02, 0x03,
      0xFB, 0x0F, 0x00, 0x00, 0x00, 0x00, 0xFF, 0x01, 0x00, 0x00, 0x00]"

definition decodeReplacing :: "byte list \<Rightarrow> js_string" where
  "decodeReplacing bytes = map (\<lambda>b. if b < 0x80 then ucast b else 0xFFFD) bytes"

definition replacingPlatform :: "int platform" where
  "replacingPlatform =
     \<lparr> atob = (\<lambda>base64. Inr invalidTextGzip),
       pako = Some (\<lambda>bytes. Inr [0xFF]),
       textDecode = (\<lambda>bytes. Inr (decodeReplacing bytes)),
       parse = (\<lambda>text. Inl (ascii ''Unexpected token'')),
       stringifyIndented = (\<lambda>v. []) \<rparr>"

section \<open>The search scan finds every occurrence\<close>























text \<open>
  C5: with the empty query the effect returns the empty MatchSet, whatever the text (and
  whether the search box is open or not).
\<close>

theorem searchLogicEffect_empty_query:
  "searchLogicEffect lower (s\<lparr>searchText := []\<rparr>) =
     Some (s\<lparr>searchText := [], searchMatches := [], currentMatchIndex := 0\<rparr>)"
  by (simp add: searchLogicEffect_def)

text \<open>The scenario's text with the query cleared, the search box still open.\<close>

theorem searchLogicEffect_empty_query_witness:
  "searchLogicEffect toLowerCaseBasicLatin (scenarioState\<lparr>searchText := []\<rparr>) =
     Some (scenarioState\<lparr>searchText := [], searchMatches := [], currentMatchIndex := 0\<rparr>)"
  by (rule searchLogicEffect_empty_query)

section \<open>Navigation among the matches\<close>

lemma handleSearchNav_index:
  assumes "searchMatches s \<noteq> []"
  shows "currentMatchIndex (handleSearchNav d s) =
           (let n = (if d = Next then currentMatchIndex s + 1 else currentMatchIndex s - 1)
            in if n \<ge> int (length (searchMatches s)) then 0
               else if n < 0 then int (length (searchMatches s)) - 1 else n)"
  using assms by (simp add: handleSearchNav_def scrollToMatch_def Let_def)

lemma handleSearchNav_matches: "searchMatches (handleSearchNav d s) = searchMatches s"
  by (simp add: handleSearchNav_def scrollToMatch_def Let_def)

lemma next_presses:
  assumes "currentMatchIndex s = 0" "k < length (searchMatches s)"
  shows "currentMatchIndex ((handleSearchNav Next ^^ k) s) = int k \<and>
         searchMatches ((handleSearchNav Next ^^ k) s) = searchMatches s"
  using assms(2)
proof (induction k)
  case 0
  then show ?case using assms(1) by simp
next
  case (Suc k)
  then have ih: "currentMatchIndex ((handleSearchNav Next ^^ k) s) = int k"
    "searchMatches ((handleSearchNav Next ^^ k) s) = searchMatches s"
    by simp_all
  have ne: "searchMatches ((handleSearchNav Next ^^ k) s) \<noteq> []"
    using ih(2) Suc.prems by auto
  show ?case
    using Suc.prems ih by (simp add: handleSearchNav_index [OF ne] handleSearchNav_matches)
qed

lemma next_cycle:
  assumes "searchMatches s \<noteq> []" "currentMatchIndex s = 0"
  shows "currentMatchIndex ((handleSearchNav Next ^^ length (searchMatches s)) s) = 0"
proof -
  obtain k where k: "length (searchMatches s) = Suc k"
    using assms(1) by (cases "searchMatches s") auto
  from next_presses [OF assms(2), of k] k
  have ih: "currentMatchIndex ((handleSearchNav Next ^^ k) s) = int k"
    "searchMatches ((handleSearchNav Next ^^ k) s) = searchMatches s"
    by simp_all
  have ne: "searchMatches ((handleSearchNav Next ^^ k) s) \<noteq> []"
    using ih(2) assms(1) by simp
  show ?thesis
    using ih by (simp add: k handleSearchNav_index [OF ne])
qed

text \<open>
  C3: with N > 0 matches and the current index in \<open>[0, N)\<close>, Next gives the index plus one,
  or 0 when that would exceed N - 1; Prev gives the index minus one, or N - 1 when that
  would go below 0; from index 0, N presses of Next come back to 0 and one Prev gives
  N - 1.
\<close>

theorem handleSearchNav_cyclic:
  assumes "searchMatches s \<noteq> []"
    and "0 \<le> currentMatchIndex s" and "currentMatchIndex s < int (length (searchMatches s))"
  shows "currentMatchIndex (handleSearchNav Next s) =
           (if currentMatchIndex s + 1 > int (length (searchMatches s)) - 1 then 0
            else currentMatchIndex s + 1) \<and>
         currentMatchIndex (handleSearchNav Prev s) =
           (if currentMatchIndex s - 1 < 0 then int (length (searchMatches s)) - 1
            else currentMatchIndex s - 1) \<and>
         (currentMatchIndex s = 0 \<longrightarrow>
            currentMatchIndex ((handleSearchNav Next ^^ length (searchMatches s)) s) = 0 \<and>
            currentMatchIndex (handleSearchNav Prev s) = int (length (searchMatches s)) - 1)"
  using assms next_cycle [OF assms(1)]
  by (simp add: handleSearchNav_index [OF assms(1)])

text \<open>
  In the scenario of the specification (two matches, index 0), Next lands on the second
  match, Prev wraps to it as well, and two presses of Next come back to the first.
\<close>

theorem handleSearchNav_cyclic_witness:
  "currentMatchIndex (handleSearchNav Next scenarioFound) = 1 \<and>
   currentMatchIndex (handleSearchNav Prev scenarioFound) = 1 \<and>
   currentMatchIndex ((handleSearchNav Next ^^ 2) scenarioFound) = 0"
proof -
  have h: "searchMatches scenarioFound \<noteq> []" "0 \<le> currentMatchIndex scenarioFound"
    "currentMatchIndex scenarioFound < int (length (searchMatches scenarioFound))"
    by (simp_all add: scenarioFound_def scenarioState_def scenarioMatches_def initialState_def)
  have v: "currentMatchIndex scenarioFound = 0" "length (searchMatches scenarioFound) = 2"
    by (simp_all add: scenarioFound_def scenarioState_def scenarioMatches_def initialState_def)
  from handleSearchNav_cyclic [OF h] show ?thesis
    by (simp add: v)
qed

text \<open>
  C4: with no matches, navigation in either direction returns at once: the current index
  and every other part of the state stay as they are.
\<close>

theorem handleSearchNav_empty_noop:
  "searchMatches s = [] \<Longrightarrow> handleSearchNav d s = s"
  by (simp add: handleSearchNav_def)

text \<open>The initial state has no matches; Prev leaves it as it is.\<close>

theorem handleSearchNav_empty_noop_witness:
  "handleSearchNav Prev (initialState :: int app_state) = initialState"
proof -
  have "searchMatches (initialState :: int app_state) = []"
    by (simp add: initialState_def)
  then show ?thesis by (rule handleSearchNav_empty_noop)
qed

text \<open>
  C10: with N > 0 matches and any integer as current index, also one outside \<open>[0, N)\<close>,
  navigation in either direction moves to the index plus or minus one, set to 0 when that is
  N or more and otherwise to N - 1 when it is negative; the new index lies in \<open>[0, N)\<close>, the
  match list is unchanged, and the selection is set to the span of the match at that index.
\<close>

theorem handleSearchNav_in_range:
  assumes "searchMatches s \<noteq> []"
  shows "currentMatchIndex (handleSearchNav d s) =
           (let n = (if d = Next then currentMatchIndex s + 1 else currentMatchIndex s - 1)
            in if n \<ge> int (length (searchMatches s)) then 0
               else if n < 0 then int (length (searchMatches s)) - 1 else n) \<and>
         0 \<le> currentMatchIndex (handleSearchNav d s) \<and>
         currentMatchIndex (handleSearchNav d s) < int (length (searchMatches s)) \<and>
         searchMatches (handleSearchNav d s) = searchMatches s \<and>
         selection (handleSearchNav d s) =
           Some (mstart (searchMatches s ! nat (currentMatchIndex (handleSearchNav d s))),
                 mend (searchMatches s ! nat (currentMatchIndex (handleSearchNav d s))))"
  using assms by (simp add: handleSearchNav_def scrollToMatch_def Let_def)

text \<open>With two matches and the stale index 7, Prev selects the first match, \<open>[5, 6)\<close>.\<close>

theorem handleSearchNav_in_range_witness:
  "currentMatchIndex (handleSearchNav Prev staleState) = 0 \<and>
   selection (handleSearchNav Prev staleState) = Some (5, 6)"
proof -
  have h: "searchMatches staleState \<noteq> []"
    by (simp add: staleState_def scenarioFound_def scenarioMatches_def)
  have v: "currentMatchIndex staleState = 7"
    "searchMatches staleState = [\<lparr>mstart = 5, mend = 6\<rparr>, \<lparr>mstart = 12, mend = 13\<rparr>]"
    by (simp_all add: staleState_def scenarioFound_def scenarioMatches_def)
  from handleSearchNav_in_range [OF h, of Prev] show ?thesis
    by (simp add: v)
qed

section \<open>Validation of blank text\<close>

lemma trim_blank:
  assumes "\<forall>c \<in> set t. isWhiteSpace c"
  shows "trim t = []"
proof -
  have d: "dropWhile isWhiteSpace t = []"
    using assms by (induction t) simp_all
  show ?thesis unfolding trim_def d by simp
qed

text \<open>
  C6: when the text is empty or all of its code units are whitespace, the validation effect
  stores no parsed value and no error message, whatever the parser would say of that text.
\<close>

theorem validationEffect_blank:
  assumes "\<forall>c \<in> set (jsonText s). isWhiteSpace c"
  shows "validationEffect jsonParse s = s\<lparr>parsedJson := JNull, error := None\<rparr>"
  using trim_blank [OF assms] by (simp add: validationEffect_def)

text \<open>A text of a space, a line feed and two spaces, with a parser that rejects everything.\<close>

theorem validationEffect_blank_witness:
  "validationEffect rejectingParse blankState = blankState\<lparr>parsedJson := JNull, error := None\<rparr>"
proof -
  have "\<forall>c \<in> set (jsonText blankState). isWhiteSpace c"
    by (simp add: blankState_def initialState_def ascii_def isWhiteSpace_def)
  then show ?thesis by (rule validationEffect_blank)
qed

section \<open>Gzip decoding: failure and fallback\<close>

text \<open>
  C7, as the claim states it, fails: on a decode input whose decompressed bytes are not
  valid text (the single byte FF) no step throws, the decoder gives U+FFFD, and the handler
  reports no error and replaces the document text by that string.
\<close>

theorem handleDecodeGzip_invalid_text_counterexample:
  "gzipError (handleDecodeGzip replacingPlatform invalidTextState) = None \<and>
   jsonText (handleDecodeGzip replacingPlatform invalidTextState) = [0xFFFD] \<and>
   jsonText invalidTextState \<noteq> [0xFFFD]"
  by (simp add: handleDecodeGzip_def decodeToText_def base64ToUint8_def replacingPlatform_def
      invalidTextState_def initialState_def decodeReplacing_def trim_def isWhiteSpace_def
      ascii_def Let_def)

text \<open>
  C7, amended: when the decode input is not blank and a decoding step throws, \<open>atob\<close> on
  malformed Base64 or \<open>pako.ungzip\<close> on a payload it rejects, the handler stores the
  error \<open>Decompression failed: \<close> followed by the message, and nothing else changes: the
  document text is as before. When no step throws, as with bytes that are not valid text,
  which the decoder replaces, no error is stored and the document text becomes the
  decoded string, pretty-printed if it parses as JSON.
\<close>

theorem handleDecodeGzip_failure:
  assumes "trim (gzipInput s) \<noteq> []" and "pako p = Some ungzip"
  shows "(atob p (gzipInput s) = Inl message \<or>
          (\<exists>binaryString. atob p (gzipInput s) = Inr binaryString \<and>
             ungzip (map ucast binaryString) = Inl message) \<longrightarrow>
          handleDecodeGzip p s =
            s\<lparr>gzipError := Some (ascii ''Decompression failed: '' @ message)\<rparr>) \<and>
         (\<forall>binaryString decompressed resultString.
            atob p (gzipInput s) = Inr binaryString \<and>
            ungzip (map ucast binaryString) = Inr decompressed \<and>
            textDecode p decompressed = Inr resultString \<longrightarrow>
            handleDecodeGzip p s =
              s\<lparr>gzipError := None,
                jsonText := (case parse p resultString of
                               Inr v \<Rightarrow> stringifyIndented p v
                             | Inl e \<Rightarrow> resultString)\<rparr>)"
proof (intro conjI allI impI)
  assume "atob p (gzipInput s) = Inl message \<or>
          (\<exists>binaryString. atob p (gzipInput s) = Inr binaryString \<and>
             ungzip (map ucast binaryString) = Inl message)"
  then have "decodeToText p (gzipInput s) = Inl message"
    using assms(2) by (auto simp: decodeToText_def base64ToUint8_def)
  with assms(1) show "handleDecodeGzip p s =
            s\<lparr>gzipError := Some (ascii ''Decompression failed: '' @ message)\<rparr>"
    by (simp add: handleDecodeGzip_def Let_def)
next
  fix binaryString decompressed resultString
  assume "atob p (gzipInput s) = Inr binaryString \<and>
          ungzip (map ucast binaryString) = Inr decompressed \<and>
          textDecode p decompressed = Inr resultString"
  then have "decodeToText p (gzipInput s) = Inr resultString"
    using assms(2) by (simp add: decodeToText_def base64ToUint8_def)
  with assms(1) show "handleDecodeGzip p s =
              s\<lparr>gzipError := None,
                jsonText := (case parse p resultString of
                               Inr v \<Rightarrow> stringifyIndented p v
                             | Inl e \<Rightarrow> resultString)\<rparr>"
    by (simp add: handleDecodeGzip_def Let_def split: sum.splits)
qed

text \<open>
  The input \<open>%%%\<close> is not Base64: the error is stored and the document keeps its text. The
  input of \<open>invalidTextState\<close> decodes without a throw: the document becomes U+FFFD.
\<close>

theorem handleDecodeGzip_failure_witness:
  "handleDecodeGzip malformedPlatform malformedState =
     malformedState\<lparr>gzipError := Some (ascii ''Decompression failed: '' @
                       ascii ''The string to be decoded is not correctly encoded.'')\<rparr> \<and>
   jsonText (handleDecodeGzip malformedPlatform malformedState) = jsonText malformedState \<and>
   handleDecodeGzip replacingPlatform invalidTextState =
     invalidTextState\<lparr>gzipError := None, jsonText := [0xFFFD]\<rparr>"
proof -
  have h: "trim (gzipInput malformedState) \<noteq> []"
    by (simp add: malformedState_def initialState_def trim_def ascii_def isWhiteSpace_def)
  have k: "pako malformedPlatform = Some (\<lambda>bytes. Inr bytes)"
    by (simp add: malformedPlatform_def)
  have f: "atob malformedPlatform (gzipInput malformedState) =
             Inl (ascii ''The string to be decoded is not correctly encoded.'')"
    by (simp add: malformedPlatform_def)
  from handleDecodeGzip_failure [OF h k] f
  have a: "handleDecodeGzip malformedPlatform malformedState =
     malformedState\<lparr>gzipError := Some (ascii ''Decompression failed: '' @
                       ascii ''The string to be decoded is not correctly encoded.'')\<rparr>"
    by blast
  have h': "trim (gzipInput invalidTextState) \<noteq> []"
    by (simp add: invalidTextState_def initialState_def trim_def ascii_def isWhiteSpace_def)
  have k': "pako replacingPlatform = Some (\<lambda>bytes. Inr [0xFF])"
    by (simp add: replacingPlatform_def)
  have g: "atob replacingPlatform (gzipInput invalidTextState) = Inr invalidTextGzip \<and>
           (\<lambda>bytes. Inr [0xFF]) (map ucast invalidTextGzip :: byte list) =
             (Inr [0xFF] :: js_string + byte list) \<and>
           textDecode replacingPlatform [0xFF] = Inr [0xFFFD]"
    by (simp add: replacingPlatform_def decodeReplacing_def)
  have j: "parse replacingPlatform [0xFFFD] = Inl (ascii ''Unexpected token'')"
    by (simp add: replacingPlatform_def)
  from handleDecodeGzip_failure [OF h' k'] g
  have "handleDecodeGzip replacingPlatform invalidTextState =
          invalidTextState\<lparr>gzipError := None,
            jsonText := (case parse replacingPlatform [0xFFFD] of
                           Inr v \<Rightarrow> stringifyIndented replacingPlatform v
                         | Inl e \<Rightarrow> [0xFFFD])\<rparr>"
    by blast
  with j have b: "handleDecodeGzip replacingPlatform invalidTextState =
     invalidTextState\<lparr>gzipError := None, jsonText := [0xFFFD]\<rparr>"
    by simp
  from a b show ?thesis by simp
qed

text \<open>
  C8: when the decode input is not blank, every decoding step succeeds and the resulting
  text is rejected by the JSON parser, the handler stores that text as the document,
  unchanged, and the error stays cleared.
\<close>

theorem handleDecodeGzip_not_json:
  assumes "trim (gzipInput s) \<noteq> []" and "pako p = Some ungzip"
    and "atob p (gzipInput s) = Inr binaryString"
    and "ungzip (map ucast binaryString) = Inr decompressed"
    and "textDecode p decompressed = Inr resultString"
    and "parse p resultString = Inl message"
  shows "handleDecodeGzip p s = s\<lparr>gzipError := None, jsonText := resultString\<rparr>"
proof -
  have "decodeToText p (gzipInput s) = Inr resultString"
    using assms(2-5) by (simp add: decodeToText_def base64ToUint8_def)
  with assms(1,6) show ?thesis
    by (simp add: handleDecodeGzip_def Let_def)
qed

text \<open>The payload \<open>not json\<close> replaces the document and the earlier error is cleared.\<close>

theorem handleDecodeGzip_not_json_witness:
  "handleDecodeGzip plainTextPlatform decodeState =
     decodeState\<lparr>gzipError := None, jsonText := ascii ''not json''\<rparr>"
proof -
  have h: "trim (gzipInput decodeState) \<noteq> []"
    by (simp add: decodeState_def initialState_def trim_def ascii_def isWhiteSpace_def)
  have k: "pako plainTextPlatform = Some (\<lambda>bytes. Inr bytes)"
    by (simp add: plainTextPlatform_def)
  have a: "atob plainTextPlatform (gzipInput decodeState) = Inr (ascii ''not json'')"
    by (simp add: plainTextPlatform_def)
  have u: "(\<lambda>bytes. Inr bytes) (map ucast (ascii ''not json'') :: byte list) =
             (Inr (map ucast (ascii ''not json'')) :: js_string + byte list)"
    by simp
  have t: "textDecode plainTextPlatform (map ucast (ascii ''not json'')) = Inr (ascii ''not json'')"
    by (simp add: plainTextPlatform_def ascii_def)
  have j: "parse plainTextPlatform (ascii ''not json'') = Inl (ascii ''Unexpected end of JSON input'')"
    by (simp add: plainTextPlatform_def rejectingParse_def)
  from handleDecodeGzip_not_json [OF h k a u t j] show ?thesis .
qed

section \<open>Tree view: a string and its source literal\<close>

lemma unescape_cases:
  assumes "unescape (c # cs) = Some v"
  shows "\<exists>x w tl. v = x # w \<and> unescape tl = Some w \<and>
           ((c \<noteq> 0x5C \<and> tl = cs) \<or> (c = 0x5C \<and> length tl < length cs))"
proof (cases "c = 0x5C")
  case False
  with assms show ?thesis by (auto split: if_splits)
next
  case True
  with assms obtain e rest where cs: "cs = e # rest"
    by (cases cs) auto
  show ?thesis
  proof (cases "e = 0x75")
    case False
    with assms True cs show ?thesis
      by (auto split: if_splits)
  next
    case u: True
    with assms True cs obtain h1 h2 h3 h4 rest' where r: "rest = h1 # h2 # h3 # h4 # rest'"
      by (auto split: list.splits)
    with assms True cs u show ?thesis
      by (auto split: option.splits intro!: exI [of _ rest'])
  qed
qed

lemma unescape_length_le: "unescape body = Some v \<Longrightarrow> length v \<le> length body"
proof (induction "length body" arbitrary: body v rule: less_induct)
  case less
  show ?case
  proof (cases body)
    case Nil
    with less.prems show ?thesis by simp
  next
    case (Cons c cs)
    from unescape_cases [OF less.prems [unfolded Cons]]
    obtain x w tl where v: "v = x # w" and u: "unescape tl = Some w" and l: "length tl \<le> length cs"
      by auto
    from l Cons have "length tl < length body" by simp
    from less.hyps [OF this u] v l Cons show ?thesis by simp
  qed
qed

lemma unescape_shorter:
  "unescape body = Some v \<Longrightarrow> 0x5C \<in> set body \<Longrightarrow> length v < length body"
proof (induction body arbitrary: v)
  case Nil
  then show ?case by simp
next
  case (Cons c cs)
  from unescape_cases [OF Cons.prems(1)]
  obtain x w tl where v: "v = x # w" and u: "unescape tl = Some w"
    and d: "(c \<noteq> 0x5C \<and> tl = cs) \<or> (c = 0x5C \<and> length tl < length cs)"
    by auto
  from d show ?case
  proof
    assume "c \<noteq> 0x5C \<and> tl = cs"
    with Cons.prems(2) Cons.IH [of w] u v show ?thesis by auto
  next
    assume "c = 0x5C \<and> length tl < length cs"
    with unescape_length_le [OF u] v show ?thesis by simp
  qed
qed

lemma unescape_plain:
  "unescape body = Some v \<Longrightarrow> 0x5C \<notin> set body \<Longrightarrow> v = body"
proof (induction body arbitrary: v)
  case Nil
  then show ?case by simp
next
  case (Cons c cs)
  then show ?case by (auto split: if_splits)
qed

lemma parseStringLiteral_parts:
  assumes "parseStringLiteral literal = Some v"
  shows "\<exists>body. literal = [0x22] @ body @ [0x22] \<and> unescape body = Some v"
proof -
  from assms obtain rest where l: "literal = 0x22 # rest" and r: "rest \<noteq> []" "last rest = 0x22"
    and u: "unescape (butlast rest) = Some v"
    by (auto simp: parseStringLiteral_def split: list.splits if_splits)
  from r have "rest = butlast rest @ [0x22]"
    by (metis append_butlast_last_id)
  with l u show ?thesis by auto
qed

text \<open>
  C9, as the claim states it, fails: the source literal \<open>"\n"\<close> (quotation mark, backslash,
  \<open>n\<close>, quotation mark) parses to the string of one line feed, and the tree shows a
  quotation mark, a line feed and a quotation mark, which is not the source literal.
\<close>

theorem renderValue_escaped_counterexample:
  "parseStringLiteral [0x22, 0x5C, 0x6E, 0x22] = Some [0x0A] \<and>
   renderValue integerText (JString [0x0A]) = Some [0x22, 0x0A, 0x22] \<and>
   [0x22, 0x0A, 0x22] \<noteq> [0x22 :: code_unit, 0x5C, 0x6E, 0x22]"
  by (simp add: parseStringLiteral_def)

text \<open>
  C9, amended: the tree model renders a String value as a double-quote, the parsed string
  itself with no escaping applied, and a double-quote; this is the string exactly as it
  appears in the source text if and only if the source literal has no escape sequence
  (no backslash).
\<close>

theorem renderValue_string:
  "renderValue numberText (JString v) = Some ([0x22] @ v @ [0x22]) \<and>
   (\<forall>literal. parseStringLiteral literal = Some v \<longrightarrow>
      (renderValue numberText (JString v) = Some literal \<longleftrightarrow> 0x5C \<notin> set literal))"
proof -
  have "[0x22] @ v @ [0x22] = literal \<longleftrightarrow> 0x5C \<notin> set literal"
    if p: "parseStringLiteral literal = Some v" for literal
  proof -
    from parseStringLiteral_parts [OF p]
    obtain body where l: "literal = [0x22] @ body @ [0x22]" and u: "unescape body = Some v"
      by blast
    show ?thesis
    proof (cases "0x5C \<in> set body")
      case True
      from unescape_shorter [OF u True] have "v \<noteq> body" by auto
      with True l show ?thesis by simp
    next
      case False
      from unescape_plain [OF u False] False l show ?thesis by simp
    qed
  qed
  then show ?thesis by simp
qed

text \<open>The string \<open>Tree View\<close> of the initial document is shown as its literal.\<close>

theorem renderValue_string_witness:
  \<open>parseStringLiteral (ascii ''"Tree View"'') = Some (ascii ''Tree View'') \<and>
   renderValue integerText (JString (ascii ''Tree View'')) = Some (ascii ''"Tree View"'')\<close>
proof -
  have p: \<open>parseStringLiteral (ascii ''"Tree View"'') = Some (ascii ''Tree View'')\<close>
    by (simp add: parseStringLiteral_def ascii_def)
  have n: \<open>0x5C \<notin> set (ascii ''"Tree View"'')\<close>
    by (simp add: ascii_def)
  from renderValue_string [of integerText "ascii ''Tree View''"] p n
  have \<open>renderValue integerText (JString (ascii ''Tree View'')) = Some (ascii ''"Tree View"'')\<close>
    by blast
  with p show ?thesis by simp
qed

end
